theory Spec2Isabelle
  imports Main "HOL-Library.Word"
begin

section \<open>puppeteer-stream: the readiness gate and the streaming bridge\<close>

text \<open>
  A shallow embedding of \<^verbatim>\<open>getStream\<close>, \<^verbatim>\<open>assertExtensionLoaded\<close> and
  \<^verbatim>\<open>PuppeteerReadableStream\<close> of \<^verbatim>\<open>src/PuppeteerStream.ts\<close>. The numbers of the source are
  modelled as integers: every number it is given here (ports, indices, ticks, delays,
  sizes) is one. A rejected promise or a thrown error is the left injection of a sum,
  and every call into the browser (\<^verbatim>\<open>evaluate\<close>, \<^verbatim>\<open>bringToFront\<close>, \<^verbatim>\<open>waitForTarget\<close>) takes
  its outcome from an environment record, since the browser and the extension are
  outside the source.
\<close>

subsection \<open>Errors, outcomes of awaited calls\<close>

datatype error =
    Error string      \<comment> \<open>\<^verbatim>\<open>throw new Error(msg)\<close> in the source\<close>
  | Rejection string  \<comment> \<open>an awaited call into the browser rejected\<close>
  | Thrown string     \<comment> \<open>a Node constructor or method threw on its arguments\<close>
  | Uncaught string   \<comment> \<open>an \<^verbatim>\<open>"error"\<close> event nobody listens to: Node ends the process\<close>

datatype 'a outcome = Resolves 'a | Rejects string

subsection \<open>Session options: \<^verbatim>\<open>getStreamOptions\<close>\<close>

text \<open>
  An optional property is an \<open>option\<close>; \<open>None\<close> is the absent property. The property
  \<^verbatim>\<open>times\<close> of \<^verbatim>\<open>retry\<close> is \<open>times_r\<close> here, and the two properties of \<^verbatim>\<open>streamConfig\<close> carry
  the prefix \<open>cfg\<close>, to keep them apart from the fields of \<^verbatim>\<open>IPuppeteerStreamOpts\<close>.
\<close>

record Constraints =
  mandatory :: "string option"
  optional :: "string option"

record retry_opts =
  each :: "int option"
  times_r :: "int option"

record transmission_opts =
  basePort :: "int option"

record streamConfig_opts =
  cfg_highWaterMarkMB :: "int option"
  cfg_immediateResume :: "bool option"

record getStreamOptions =
  audio :: bool
  video :: bool
  videoConstraints :: "Constraints option"
  audioConstraints :: "Constraints option"
  mimeType :: "string option"
  audioBitsPerSecond :: "int option"
  videoBitsPerSecond :: "int option"
  bitsPerSecond :: "int option"
  frameSize :: "int option"
  delay :: "int option"
  retry :: "retry_opts option"
  transmission :: "transmission_opts option"
  streamConfig :: "streamConfig_opts option"

text \<open>The value of \<^verbatim>\<open>Object.assign({}, { each: 20, times: 3 }, opts.retry)\<close>.\<close>

record retryPolicy =
  policy_each :: int
  policy_times :: int

subsection \<open>The readiness gate: \<^verbatim>\<open>assertExtensionLoaded\<close>\<close>

text \<open>
  What a session creation does to the browser side and to the clock is a trace of
  effects: \<open>BringToFront\<close> for \<^verbatim>\<open>page.bringToFront()\<close>, \<open>Probe\<close> for each
  \<^verbatim>\<open>ext.evaluate(() => typeof START_RECORDING === "function")\<close>, a wait for each
  \<^verbatim>\<open>wait(Math.pow(opt.each, currentTick))\<close>, and \<open>Start options index\<close> for
  \<^verbatim>\<open>START_RECORDING({ ...opts, index })\<close>.

  \<^verbatim>\<open>Math.pow\<close> computes in double precision. Every integer up to \<open>2^53\<close> in absolute
  value is a double: where the integer power is one of them, the wait is \<open>Wait\<close> of that
  integer. Beyond it the double returned is a rounded one (or an infinity) and the model
  does not say which: the wait is \<open>WaitRounded each currentTick\<close>.
\<close>

datatype effect =
    BringToFront
  | Probe
  | Wait int
  | WaitRounded int nat
  | Start getStreamOptions nat

definition wait_pow :: "int \<Rightarrow> nat \<Rightarrow> effect" where
  "wait_pow b k = (if \<bar>b ^ k\<bar> \<le> 2 ^ 53 then Wait (b ^ k) else WaitRounded b k)"

definition readiness_message :: string where
  "readiness_message = ''Could not find START_RECORDING function in the browser context''"

text \<open>
  The loop of lines 190 to 195 from \<open>currentTick\<close> on, appending to the trace it is
  given; the answer of the probe it makes at tick \<open>k\<close> is \<open>probe k\<close>.
\<close>

function assertExtensionLoaded_loop ::
  "(nat \<Rightarrow> bool outcome) \<Rightarrow> retryPolicy \<Rightarrow> nat \<Rightarrow> effect list
    \<Rightarrow> (error + unit) \<times> effect list" where
  "assertExtensionLoaded_loop probe opt currentTick tr =
     (if int currentTick < policy_times opt then
        (case probe currentTick of
           Rejects m \<Rightarrow> (Inl (Rejection m), tr @ [Probe])
         | Resolves True \<Rightarrow> (Inr (), tr @ [Probe])
         | Resolves False \<Rightarrow>
             assertExtensionLoaded_loop probe opt (Suc currentTick)
               (tr @ [Probe, wait_pow (policy_each opt) currentTick]))
      else (Inl (Error readiness_message), tr))"
  by pat_completeness auto
termination
  by (relation "measure (\<lambda>(probe, opt, currentTick, tr). nat (policy_times opt - int currentTick))")
     auto

declare assertExtensionLoaded_loop.simps [simp del]

definition assertExtensionLoaded ::
  "(nat \<Rightarrow> bool outcome) \<Rightarrow> retryPolicy \<Rightarrow> (error + unit) \<times> effect list" where
  "assertExtensionLoaded probe opt = assertExtensionLoaded_loop probe opt 0 []"

definition probe_count :: "effect list \<Rightarrow> nat" where
  "probe_count tr = length (filter (\<lambda>e. e = Probe) tr)"

definition waits :: "effect list \<Rightarrow> int list" where
  "waits tr = concat (map (\<lambda>e. case e of Wait ms \<Rightarrow> [ms] | _ \<Rightarrow> []) tr)"

text \<open>The number of \<^verbatim>\<open>wait\<close> calls of a trace, whatever their length.\<close>

definition wait_count :: "effect list \<Rightarrow> nat" where
  "wait_count tr =
     length (filter (\<lambda>e. case e of Wait ms \<Rightarrow> True | WaitRounded b k \<Rightarrow> True | _ \<Rightarrow> False) tr)"

text \<open>The \<^verbatim>\<open>START_RECORDING\<close> evaluations of a trace.\<close>

fun starts :: "effect list \<Rightarrow> (getStreamOptions \<times> nat) list" where
  "starts [] = []"
| "starts (Start options index # es) = (options, index) # starts es"
| "starts (e # es) = starts es"

subsection \<open>The streaming bridge: \<^verbatim>\<open>PuppeteerReadableStream\<close>\<close>

text \<open>
  A chunk is a \<^verbatim>\<open>Buffer\<close> of bytes. An accepted socket is identified by a number and
  records whether \<^verbatim>\<open>socket.end()\<close> was called on it; the server records whether it is
  listening and where. \<open>onDestroy\<close> is the closure
  \<^verbatim>\<open>() => extension.evaluate((index) => STOP_RECORDING(index), index)\<close>, represented by the
  index it captures (\<open>None\<close>: no callback).
\<close>

type_synonym chunk = "8 word list"

record TCPSocket =
  sock_id :: nat
  ended :: bool

record TCPServer =
  listening :: bool
  listen_port :: int
  listen_host :: string

record IPuppeteerStreamOpts =
  onDestroy :: "nat option"
  highWaterMarkMB :: int
  immediateResume :: bool
  port :: int

text \<open>
  The object state. The fields from \<open>flowing\<close> to \<open>destroyed\<close> are the state of the
  \<^verbatim>\<open>Readable\<close> base class, which the source reaches through \<^verbatim>\<open>push\<close>, \<^verbatim>\<open>resume\<close> and
  \<^verbatim>\<open>super.destroy\<close> and the consumer through \<^verbatim>\<open>on("data", ...)\<close>:
  \<^item> \<open>flowing\<close> is \<^verbatim>\<open>readableFlowing\<close> (\<open>None\<close> for \<^verbatim>\<open>null\<close>), \<open>dataListeners\<close> the number of
    \<^verbatim>\<open>"data"\<close> listeners, \<open>buffer\<close> the chunks held inside the stream;
  \<^item> \<open>pushed\<close> is every chunk \<^verbatim>\<open>push\<close> took in, \<open>delivered\<close> every chunk emitted to a
    \<^verbatim>\<open>"data"\<close> listener, \<open>discarded\<close> every chunk emitted while there was none, each in order.
  \<open>stopCalls\<close> counts the invocations of \<open>onDestroy\<close>, and \<open>awaitingStop\<close> the
  \<^verbatim>\<open>destroy\<close> calls suspended at \<^verbatim>\<open>await this.onDestroy?.()\<close>.
\<close>

record PuppeteerReadableStream =
  opts :: IPuppeteerStreamOpts
  highWaterMark :: int
  tcpSockets :: "TCPSocket list"
  tcpServer :: TCPServer
  flowing :: "bool option"
  dataListeners :: nat
  buffer :: "chunk list"
  pushed :: "chunk list"
  delivered :: "chunk list"
  discarded :: "chunk list"
  destroyed :: bool
  stopCalls :: nat
  awaitingStop :: nat

text \<open>
  The object the constructor builds when it does not throw. \<open>bound\<close> says whether the
  operating system grants \<^verbatim>\<open>listen(opts.port, "127.0.0.1")\<close>; a server that is refused the
  port does not listen. \<^verbatim>\<open>opts.immediateResume && this.resume()\<close> sets the stream flowing.
\<close>

definition stream_object :: "IPuppeteerStreamOpts \<Rightarrow> bool \<Rightarrow> PuppeteerReadableStream" where
  "stream_object options bound =
     \<lparr>opts = options,
      highWaterMark = 1024 * 1024 * highWaterMarkMB options,
      tcpSockets = [],
      tcpServer = \<lparr>listening = bound, listen_port = port options, listen_host = ''127.0.0.1''\<rparr>,
      flowing = (if immediateResume options then Some True else None),
      dataListeners = 0,
      buffer = [],
      pushed = [],
      delivered = [],
      discarded = [],
      destroyed = False,
      stopCalls = 0,
      awaitingStop = 0\<rparr>"

text \<open>
  The constructor. \<^verbatim>\<open>super({ highWaterMark })\<close> throws on a negative mark, and \<^verbatim>\<open>listen\<close> throws
  on a port outside 0 to 65535; in both cases no object results.
\<close>

definition new_PuppeteerReadableStream ::
  "IPuppeteerStreamOpts \<Rightarrow> bool \<Rightarrow> error + PuppeteerReadableStream" where
  "new_PuppeteerReadableStream options bound =
     (if 1024 * 1024 * highWaterMarkMB options < 0 then Inl (Thrown ''highWaterMark'')
      else if port options < 0 \<or> 65535 < port options then Inl (Thrown ''port'')
      else Inr (stream_object options bound))"

text \<open>
  What a flowing stream does with the chunks it holds: it emits them, in order, in
  \<^verbatim>\<open>"data"\<close> events. With a listener they reach the consumer; with none, or once the
  stream is destroyed, they reach nobody.
\<close>

definition flow :: "PuppeteerReadableStream \<Rightarrow> PuppeteerReadableStream" where
  "flow s =
     (if flowing s = Some True
      then (if 0 < dataListeners s \<and> \<not> destroyed s
            then s\<lparr>delivered := delivered s @ buffer s, buffer := []\<rparr>
            else s\<lparr>discarded := discarded s @ buffer s, buffer := []\<rparr>)
      else s)"

text \<open>
  \<^verbatim>\<open>this.push(data)\<close>. Node's \<^verbatim>\<open>Readable.push\<close> ignores a chunk once the stream is destroyed,
  and ignores a chunk of length 0; any other chunk enters the stream whatever the high
  water mark (the source does not look at what \<^verbatim>\<open>push\<close> returns).
\<close>

definition push :: "chunk \<Rightarrow> PuppeteerReadableStream \<Rightarrow> PuppeteerReadableStream" where
  "push data s =
     (if destroyed s \<or> data = [] then s
      else flow (s\<lparr>pushed := pushed s @ [data], buffer := buffer s @ [data]\<rparr>))"

text \<open>
  The consumer attaches a \<^verbatim>\<open>"data"\<close> listener (\<^verbatim>\<open>stream.on("data", ...)\<close>, which is also what
  \<^verbatim>\<open>stream.pipe\<close> does): unless the stream was paused explicitly, it starts flowing.
\<close>

definition onDataListener :: "PuppeteerReadableStream \<Rightarrow> PuppeteerReadableStream" where
  "onDataListener s =
     (if flowing s = Some False then s\<lparr>dataListeners := Suc (dataListeners s)\<rparr>
      else flow (s\<lparr>dataListeners := Suc (dataListeners s), flowing := Some True\<rparr>))"

text \<open>
  What the consumer has received, and what it has received or will receive once it
  listens: the bytes of the chunks delivered, and of those delivered or still held.
\<close>

definition received_bytes :: "PuppeteerReadableStream \<Rightarrow> 8 word list" where
  "received_bytes s = concat (delivered s)"

definition output_bytes :: "PuppeteerReadableStream \<Rightarrow> 8 word list" where
  "output_bytes s = concat (delivered s @ buffer s)"

text \<open>
  The connection callback of \<^verbatim>\<open>net.createServer\<close>: the socket is registered. A server that
  is not listening accepts nothing, so the callback does not run.
\<close>

definition onConnection :: "nat \<Rightarrow> PuppeteerReadableStream \<Rightarrow> PuppeteerReadableStream" where
  "onConnection sid s =
     (if listening (tcpServer s)
      then s\<lparr>tcpSockets := tcpSockets s @ [\<lparr>sock_id = sid, ended = False\<rparr>]\<rparr>
      else s)"

text \<open>The \<^verbatim>\<open>"data"\<close> handler, which only registered sockets have.\<close>

definition onData :: "nat \<Rightarrow> chunk \<Rightarrow> PuppeteerReadableStream \<Rightarrow> PuppeteerReadableStream" where
  "onData sid data s = (if sid \<in> set (map sock_id (tcpSockets s)) then push data s else s)"

text \<open>
  \<^verbatim>\<open>destroy\<close> in three parts. \<open>destroy_call\<close> is the part before the \<^verbatim>\<open>await\<close>: it invokes
  \<open>onDestroy\<close> when there is one. \<open>teardown\<close> is the part after it:
  \<^verbatim>\<open>socket.end()\<close> on every registered socket, \<^verbatim>\<open>tcpServer.close()\<close>, \<^verbatim>\<open>super.destroy()\<close>.
  \<open>destroy_resume\<close> is what the \<^verbatim>\<open>await\<close> does with the outcome of the callback: a
  rejection leaves the function at once, with the error.
\<close>

definition destroy_call :: "PuppeteerReadableStream \<Rightarrow> PuppeteerReadableStream" where
  "destroy_call s =
     (case onDestroy (opts s) of
        None \<Rightarrow> s
      | Some index \<Rightarrow> s\<lparr>stopCalls := Suc (stopCalls s)\<rparr>)"

definition teardown :: "PuppeteerReadableStream \<Rightarrow> PuppeteerReadableStream" where
  "teardown s =
     s\<lparr>tcpSockets := map (\<lambda>socket. socket\<lparr>ended := True\<rparr>) (tcpSockets s),
       tcpServer := (tcpServer s)\<lparr>listening := False\<rparr>,
       destroyed := True\<rparr>"

definition destroy_resume ::
  "unit outcome \<Rightarrow> PuppeteerReadableStream \<Rightarrow> (error + unit) \<times> PuppeteerReadableStream" where
  "destroy_resume stopped s =
     (case stopped of
        Rejects m \<Rightarrow> (Inl (Rejection m), s)
      | Resolves u \<Rightarrow> (Inr (), teardown s))"

text \<open>
  One whole \<^verbatim>\<open>destroy()\<close> with nothing happening in between; \<open>stopped\<close> is the outcome of
  the callback's promise (without a callback, \<^verbatim>\<open>await undefined\<close> resolves).
\<close>

definition destroy ::
  "unit outcome \<Rightarrow> PuppeteerReadableStream \<Rightarrow> (error + unit) \<times> PuppeteerReadableStream" where
  "destroy stopped s =
     destroy_resume (if onDestroy (opts s) = None then Resolves () else stopped) (destroy_call s)"

text \<open>
  The bridge on the event loop. While a \<^verbatim>\<open>destroy\<close> call waits for the callback's promise,
  the loop delivers connections and data; \<open>StopSettled\<close> is the promise settling, which
  resumes the oldest waiting call. Without a callback the continuation runs before any
  other event, so \<open>DestroyCalled\<close> tears down at once. \<open>DataListener\<close> is the consumer
  attaching a \<^verbatim>\<open>"data"\<close> listener.
\<close>

datatype event =
    Connection nat
  | Data nat chunk
  | DataListener
  | DestroyCalled
  | StopSettled "unit outcome"

fun step :: "PuppeteerReadableStream \<Rightarrow> event \<Rightarrow> PuppeteerReadableStream" where
  "step s (Connection sid) = onConnection sid s"
| "step s (Data sid data) = onData sid data s"
| "step s DataListener = onDataListener s"
| "step s DestroyCalled =
     (if onDestroy (opts s) = None then snd (destroy (Resolves ()) s)
      else (destroy_call s)\<lparr>awaitingStop := Suc (awaitingStop s)\<rparr>)"
| "step s (StopSettled stopped) =
     (if awaitingStop s = 0 then s
      else snd (destroy_resume stopped (s\<lparr>awaitingStop := awaitingStop s - 1\<rparr>)))"

definition run :: "PuppeteerReadableStream \<Rightarrow> event list \<Rightarrow> PuppeteerReadableStream" where
  "run s evs = foldl step s evs"

text \<open>
  The state \<open>CLOSED\<close>: torn down, nothing listening, every socket ended. A bridge is
  \<open>live\<close> while its server listens and the stream is not destroyed.
\<close>

definition CLOSED :: "PuppeteerReadableStream \<Rightarrow> bool" where
  "CLOSED s \<longleftrightarrow> destroyed s \<and> \<not> listening (tcpServer s) \<and> list_all ended (tcpSockets s)"

definition live :: "PuppeteerReadableStream \<Rightarrow> bool" where
  "live s \<longleftrightarrow> \<not> destroyed s \<and> listening (tcpServer s)"

text \<open>An event other than the stop callback resolving.\<close>

fun not_resolving :: "event \<Rightarrow> bool" where
  "not_resolving (StopSettled (Resolves u)) = False"
| "not_resolving ev = True"

text \<open>
  A stream heeds the chunks it takes in while it is not destroyed and is not flowing
  without a \<^verbatim>\<open>"data"\<close> listener.
\<close>

definition heeded :: "PuppeteerReadableStream \<Rightarrow> bool" where
  "heeded s \<longleftrightarrow> \<not> destroyed s \<and> (flowing s = Some True \<longrightarrow> 0 < dataListeners s)"

subsection \<open>Session creation: \<^verbatim>\<open>getStream\<close>\<close>

text \<open>
  The outcomes of the calls \<^verbatim>\<open>getStream\<close> awaits: \<^verbatim>\<open>browser.waitForTarget\<close> (does it yield a
  target), \<^verbatim>\<open>extensionTarget.page()\<close> (does it yield a page), \<^verbatim>\<open>page.bringToFront()\<close>, the
  probe of the gate at each tick, and the \<^verbatim>\<open>START_RECORDING\<close> evaluation; and
  \<open>hostPortFree\<close>, which ports of 127.0.0.1 the operating system would grant this process
  as far as everything outside it is concerned.
\<close>

record env =
  waitForTarget :: "bool outcome"
  targetPage :: "bool outcome"
  hostPortFree :: "int \<Rightarrow> bool"
  bringToFront :: "unit outcome"
  probeAnswer :: "nat \<Rightarrow> bool outcome"
  startRecording :: "unit outcome"

text \<open>
  The process state: the module variable \<^verbatim>\<open>currentIndex\<close>, every stream object constructed
  so far (a stream is referred to by its position), the trace of effects so far, and
  whether the process has ended on an uncaught error.
\<close>

record world =
  currentIndex :: nat
  streams :: "PuppeteerReadableStream list"
  effects :: "effect list"
  crashed :: bool

definition getExtensionPage :: "env \<Rightarrow> error + unit" where
  "getExtensionPage e =
     (case waitForTarget e of
        Rejects m \<Rightarrow> Inl (Rejection m)
      | Resolves False \<Rightarrow> Inl (Error ''cannot load extension'')
      | Resolves True \<Rightarrow>
          (case targetPage e of
             Rejects m \<Rightarrow> Inl (Rejection m)
           | Resolves False \<Rightarrow> Inl (Error ''cannot get page of extension'')
           | Resolves True \<Rightarrow> Inr ()))"

text \<open>
  Lines 152 to 156: the defaults written into the caller's object. \<^verbatim>\<open>!opts.mimeType\<close> holds of
  an absent and of an empty string, \<^verbatim>\<open>!opts.frameSize\<close> of an absent size and of 0.
\<close>

definition fill_defaults :: "getStreamOptions \<Rightarrow> getStreamOptions" where
  "fill_defaults options =
     (let o1 = (if mimeType options = None \<or> mimeType options = Some []
                then (if video options then options\<lparr>mimeType := Some ''video/webm''\<rparr>
                      else if audio options then options\<lparr>mimeType := Some ''audio/webm''\<rparr>
                      else options)
                else options)
      in if frameSize o1 = None \<or> frameSize o1 = Some 0 then o1\<lparr>frameSize := Some 20\<rparr> else o1)"

definition retryPolicy_of :: "getStreamOptions \<Rightarrow> retryPolicy" where
  "retryPolicy_of options =
     (case retry options of
        None \<Rightarrow> \<lparr>policy_each = 20, policy_times = 3\<rparr>
      | Some r \<Rightarrow>
          \<lparr>policy_each = (case each r of None \<Rightarrow> 20 | Some e \<Rightarrow> e),
           policy_times = (case times_r r of None \<Rightarrow> 3 | Some t \<Rightarrow> t)\<rparr>)"

text \<open>\<^verbatim>\<open>opts.transmission?.basePort || 55200\<close>: 0 is falsy.\<close>

definition basePort_of :: "getStreamOptions \<Rightarrow> int" where
  "basePort_of options =
     (case transmission options of
        None \<Rightarrow> 55200
      | Some t \<Rightarrow> (case basePort t of None \<Rightarrow> 55200 | Some p \<Rightarrow> if p = 0 then 55200 else p))"

text \<open>\<^verbatim>\<open>opts.streamConfig?.highWaterMarkMB || 8\<close> and \<^verbatim>\<open>opts.streamConfig?.immediateResume ?? true\<close>.\<close>

definition highWaterMarkMB_of :: "getStreamOptions \<Rightarrow> int" where
  "highWaterMarkMB_of options =
     (case streamConfig options of
        None \<Rightarrow> 8
      | Some c \<Rightarrow> (case cfg_highWaterMarkMB c of None \<Rightarrow> 8 | Some h \<Rightarrow> if h = 0 then 8 else h))"

definition immediateResume_of :: "getStreamOptions \<Rightarrow> bool" where
  "immediateResume_of options =
     (case streamConfig options of
        None \<Rightarrow> True
      | Some c \<Rightarrow> (case cfg_immediateResume c of None \<Rightarrow> True | Some b \<Rightarrow> b))"

text \<open>
  Whether \<^verbatim>\<open>listen\<close> on port \<open>p\<close> is granted: port 0 asks for any free port and always is;
  another port is granted when nothing outside the process holds it and no server of the
  process listens on it.
\<close>

definition port_in_use :: "world \<Rightarrow> int \<Rightarrow> bool" where
  "port_in_use w p \<longleftrightarrow>
     p \<in> set (map (\<lambda>s. listen_port (tcpServer s)) (filter (\<lambda>s. listening (tcpServer s)) (streams w)))"

definition binds :: "env \<Rightarrow> world \<Rightarrow> int \<Rightarrow> bool" where
  "binds e w p \<longleftrightarrow> p = 0 \<or> (hostPortFree e p \<and> \<not> port_in_use w p)"

text \<open>
  Lines 161 to 174: \<^verbatim>\<open>currentIndex++\<close>, the port, and the new stream. When the constructor
  throws, the index is spent and there is no stream.
\<close>

definition allocate :: "env \<Rightarrow> getStreamOptions \<Rightarrow> world \<Rightarrow> (error + nat) \<times> world" where
  "allocate e options w =
     (let index = currentIndex w;
          port = basePort_of options + int index;
          w1 = w\<lparr>currentIndex := Suc index\<rparr>
      in case new_PuppeteerReadableStream
            \<lparr>onDestroy = Some index,
             highWaterMarkMB = highWaterMarkMB_of options,
             immediateResume = immediateResume_of options,
             port = port\<rparr> (binds e w port) of
           Inl err \<Rightarrow> (Inl err, w1)
         | Inr stream \<Rightarrow> (Inr (length (streams w)), w1\<lparr>streams := streams w @ [stream]\<rparr>))"

text \<open>
  From the page that \<^verbatim>\<open>getExtensionPage\<close> returns (line 159) to the call of
  \<^verbatim>\<open>page.bringToFront()\<close> (line 176), which no \<^verbatim>\<open>await\<close> interrupts. The result is the index
  and the stream. A server that was refused its port emits \<^verbatim>\<open>"error"\<close> before any other
  event is handled, and the source registers no listener for it: the process ends.
\<close>

definition after_page ::
  "env \<Rightarrow> getStreamOptions \<Rightarrow> world \<Rightarrow> (error + nat \<times> nat) \<times> world" where
  "after_page e options w =
     (case getExtensionPage e of
        Inl err \<Rightarrow> (Inl err, w)
      | Inr u \<Rightarrow>
          (case allocate e options w of
             (Inl err, w1) \<Rightarrow> (Inl err, w1)
           | (Inr stream, w1) \<Rightarrow>
               (if binds e w (basePort_of options + int (currentIndex w))
                then (Inr (currentIndex w, stream), w1\<lparr>effects := effects w1 @ [BringToFront]\<rparr>)
                else (Inl (Uncaught ''listen''),
                      w1\<lparr>effects := effects w1 @ [BringToFront], crashed := True\<rparr>))))"

text \<open>
  From the outcome of \<^verbatim>\<open>bringToFront\<close> to the end (lines 176 to 185): the gate,
  \<^verbatim>\<open>START_RECORDING\<close>, and the stream returned. Nothing on these lines touches the stream
  when one of the calls fails.
\<close>

definition after_front ::
  "env \<Rightarrow> getStreamOptions \<Rightarrow> nat \<Rightarrow> nat \<Rightarrow> world \<Rightarrow> (error + nat) \<times> world" where
  "after_front e options index stream w =
     (case bringToFront e of
        Rejects m \<Rightarrow> (Inl (Rejection m), w)
      | Resolves u \<Rightarrow>
          (case assertExtensionLoaded (probeAnswer e) (retryPolicy_of options) of
             (Inl err, tr) \<Rightarrow> (Inl err, w\<lparr>effects := effects w @ tr\<rparr>)
           | (Inr u, tr) \<Rightarrow>
               (case startRecording e of
                  Rejects m \<Rightarrow> Inl (Rejection m)
                | Resolves u \<Rightarrow> Inr stream,
                w\<lparr>effects := effects w @ tr @ [Start options index]\<rparr>)))"

text \<open>
  \<^verbatim>\<open>getStream\<close>, run without anything else happening in between: the result (an error, or
  the reference of the stream), the caller's options object after the call, and the
  process state after the call.
\<close>

definition getStream ::
  "env \<Rightarrow> getStreamOptions \<Rightarrow> world \<Rightarrow> (error + nat) \<times> getStreamOptions \<times> world" where
  "getStream e options w =
     (if \<not> audio options \<and> \<not> video options
      then (Inl (Error ''At least audio or video must be true''), options, w)
      else
        (let options' = fill_defaults options in
         case after_page e options' w of
           (Inl err, w1) \<Rightarrow> (Inl err, options', w1)
         | (Inr (index, stream), w1) \<Rightarrow>
             (let (r, w') = after_front e options' index stream w1
              in (r, options', w'))))"


definition initial_world :: world where
  "initial_world = \<lparr>currentIndex = 0, streams = [], effects = [], crashed = False\<rparr>"


subsection \<open>Session creations in flight together\<close>

text \<open>
  A call of \<^verbatim>\<open>getStream\<close> runs from one \<^verbatim>\<open>await\<close> to the next without interruption, and at an
  \<^verbatim>\<open>await\<close> other calls may run. Where a call is suspended:
  \<^item> \<open>AwaitPage\<close>: at \<^verbatim>\<open>await getExtensionPage(...)\<close>, line 159;
  \<^item> \<open>AwaitFront index stream\<close>: at \<^verbatim>\<open>await page.bringToFront()\<close>, line 176;
  \<^item> \<open>AwaitProbe index stream currentTick\<close>: at the probe of the gate, line 192;
  \<^item> \<open>AwaitTimer index stream currentTick\<close>: at \<^verbatim>\<open>await wait(...)\<close>, line 193;
  \<^item> \<open>AwaitStart index stream\<close>: at the \<^verbatim>\<open>START_RECORDING\<close> evaluation, line 179;
  \<^item> \<open>Returned r\<close>: the call is over, with an error or the stream.
\<close>

datatype pc =
    AwaitPage
  | AwaitFront nat nat
  | AwaitProbe nat nat nat
  | AwaitTimer nat nat nat
  | AwaitStart nat nat
  | Returned "error + nat"

text \<open>The head of the loop of the gate at \<open>currentTick\<close>: the next probe, or the error.\<close>

definition gate_head ::
  "getStreamOptions \<Rightarrow> nat \<Rightarrow> nat \<Rightarrow> nat \<Rightarrow> world \<Rightarrow> pc \<times> world" where
  "gate_head options index stream currentTick w =
     (if int currentTick < policy_times (retryPolicy_of options)
      then (AwaitProbe index stream currentTick, w\<lparr>effects := effects w @ [Probe]\<rparr>)
      else (Returned (Inl (Error readiness_message)), w))"

text \<open>One stretch of a call: from the awaited promise settling to the next \<^verbatim>\<open>await\<close>.\<close>

fun resume :: "env \<Rightarrow> getStreamOptions \<Rightarrow> pc \<Rightarrow> world \<Rightarrow> pc \<times> world" where
  "resume e options AwaitPage w =
     (case after_page e options w of
        (Inl err, w1) \<Rightarrow> (Returned (Inl err), w1)
      | (Inr (index, stream), w1) \<Rightarrow> (AwaitFront index stream, w1))"
| "resume e options (AwaitFront index stream) w =
     (case bringToFront e of
        Rejects m \<Rightarrow> (Returned (Inl (Rejection m)), w)
      | Resolves u \<Rightarrow> gate_head options index stream 0 w)"
| "resume e options (AwaitProbe index stream currentTick) w =
     (case probeAnswer e currentTick of
        Rejects m \<Rightarrow> (Returned (Inl (Rejection m)), w)
      | Resolves True \<Rightarrow>
          (AwaitStart index stream, w\<lparr>effects := effects w @ [Start options index]\<rparr>)
      | Resolves False \<Rightarrow>
          (AwaitTimer index stream currentTick,
           w\<lparr>effects := effects w @ [wait_pow (policy_each (retryPolicy_of options)) currentTick]\<rparr>))"
| "resume e options (AwaitTimer index stream currentTick) w =
     gate_head options index stream (Suc currentTick) w"
| "resume e options (AwaitStart index stream) w =
     (case startRecording e of
        Rejects m \<Rightarrow> (Returned (Inl (Rejection m)), w)
      | Resolves u \<Rightarrow> (Returned (Inr stream), w))"
| "resume e options (Returned r) w = (Returned r, w)"










text \<open>
  A call run to its end with nothing in between: stretch after stretch. It gets there,
  since every stretch brings the call closer to its end in the order of \<open>pc_rank\<close>.
\<close>

fun pc_rank :: "nat \<Rightarrow> pc \<Rightarrow> nat" where
  "pc_rank T AwaitPage = 2 * T + 5"
| "pc_rank T (AwaitFront index stream) = 2 * T + 4"
| "pc_rank T (AwaitProbe index stream k) = 2 * (T - k) + 2"
| "pc_rank T (AwaitTimer index stream k) = 2 * (T - k) + 1"
| "pc_rank T (AwaitStart index stream) = 1"
| "pc_rank T (Returned r) = 0"

function complete :: "env \<Rightarrow> getStreamOptions \<Rightarrow> pc \<Rightarrow> world \<Rightarrow> (error + nat) \<times> world" where
  "complete e options p w =
     (case p of
        Returned r \<Rightarrow> (r, w)
      | _ \<Rightarrow> (case resume e options p w of (p', w') \<Rightarrow> complete e options p' w'))"
  by pat_completeness auto
termination
  apply (relation "measure (\<lambda>(e, options, p, w).
      pc_rank (nat (policy_times (retryPolicy_of options))) p)")
   apply simp
  apply (auto simp: gate_head_def
      split: prod.splits sum.splits outcome.splits bool.splits if_splits)
  done

declare complete.simps [simp del]

text \<open>
  For comparing the two: what \<^verbatim>\<open>START_RECORDING\<close> settling makes of a call, and what the loop
  of the gate from \<open>currentTick\<close> on and the lines after it make of one.
\<close>

definition start_result :: "env \<Rightarrow> nat \<Rightarrow> error + nat" where
  "start_result e stream =
     (case startRecording e of Rejects m \<Rightarrow> Inl (Rejection m) | Resolves u \<Rightarrow> Inr stream)"

definition gate_result ::
  "env \<Rightarrow> getStreamOptions \<Rightarrow> nat \<Rightarrow> nat \<Rightarrow> nat \<Rightarrow> world \<Rightarrow> (error + nat) \<times> world" where
  "gate_result e options index stream k w =
     (case assertExtensionLoaded_loop (probeAnswer e) (retryPolicy_of options) k [] of
        (Inl err, tr) \<Rightarrow> (Inl err, w\<lparr>effects := effects w @ tr\<rparr>)
      | (Inr u, tr) \<Rightarrow> (start_result e stream, w\<lparr>effects := effects w @ tr @ [Start options index]\<rparr>))"

subsection \<open>Concrete sessions\<close>

text \<open>
  Video only with every optional property absent; a browser in which every call
  succeeds, every port is free and the extension is ready at the first probe; and one
  whose extension never defines \<^verbatim>\<open>START_RECORDING\<close>.
\<close>

definition video_opts :: getStreamOptions where
  "video_opts = \<lparr>audio = False, video = True, videoConstraints = None, audioConstraints = None,
     mimeType = None, audioBitsPerSecond = None, videoBitsPerSecond = None, bitsPerSecond = None,
     frameSize = None, delay = None, retry = None, transmission = None, streamConfig = None\<rparr>"

definition ready_env :: env where
  "ready_env = \<lparr>waitForTarget = Resolves True, targetPage = Resolves True,
     hostPortFree = (\<lambda>p. True), bringToFront = Resolves (),
     probeAnswer = (\<lambda>k. Resolves True), startRecording = Resolves ()\<rparr>"

definition never_ready_env :: env where
  "never_ready_env = ready_env\<lparr>probeAnswer := (\<lambda>k. Resolves False)\<rparr>"

text \<open>The options of the stream of the first default session.\<close>

definition session0_opts :: IPuppeteerStreamOpts where
  "session0_opts = \<lparr>onDestroy = Some 0, highWaterMarkMB = 8, immediateResume = True, port = 55200\<rparr>"


text \<open>
  The stream of the first default session with socket 1 accepted, and the same once the
  consumer listens.
\<close>

definition connected_bridge :: PuppeteerReadableStream where
  "connected_bridge = onConnection 1 (stream_object session0_opts True)"

definition consumed_bridge :: PuppeteerReadableStream where
  "consumed_bridge = onDataListener connected_bridge"

text \<open>The same with \<^verbatim>\<open>immediateResume: false\<close>: the stream waits for its consumer.\<close>

definition paused_bridge :: PuppeteerReadableStream where
  "paused_bridge = onConnection 1 (stream_object (session0_opts\<lparr>immediateResume := False\<rparr>) True)"

section \<open>Auxiliary facts\<close>

lemmas gate_unfold = assertExtensionLoaded_loop.simps [of _ _ _ "[]"]
  assertExtensionLoaded_loop.simps [of _ _ _ "_ # _"]

lemmas bridge_defs = session0_opts_def connected_bridge_def consumed_bridge_def
  paused_bridge_def stream_object_def onConnection_def onData_def onDataListener_def push_def
  flow_def destroy_def destroy_call_def destroy_resume_def teardown_def run_def CLOSED_def
  live_def output_bytes_def received_bytes_def

lemmas session_defs = getStream_def after_page_def after_front_def allocate_def
  getExtensionPage_def fill_defaults_def retryPolicy_of_def basePort_of_def
  highWaterMarkMB_of_def immediateResume_of_def new_PuppeteerReadableStream_def
  stream_object_def binds_def port_in_use_def initial_world_def video_opts_def ready_env_def
  never_ready_env_def session0_opts_def assertExtensionLoaded_def wait_pow_def Let_def

subsection \<open>The gate\<close>

lemma starts_append: "starts (xs @ ys) = starts xs @ starts ys"
  by (induction xs rule: starts.induct) auto

lemma starts_wait_pow: "starts [wait_pow b k] = []"
  by (simp add: wait_pow_def)

lemma gate_loop_starts: "starts (snd (assertExtensionLoaded_loop probe pol k tr)) = starts tr"
proof (induction probe pol k tr rule: assertExtensionLoaded_loop.induct)
  case (1 probe opt currentTick tr)
  show ?case
    by (subst assertExtensionLoaded_loop.simps)
       (use 1 in \<open>auto simp: starts_append starts_wait_pow split: outcome.splits bool.splits\<close>)
qed

lemma gate_starts: "assertExtensionLoaded probe pol = (r, tr) \<Longrightarrow> starts tr = []"
  using gate_loop_starts [of probe pol 0 "[]"] by (simp add: assertExtensionLoaded_def)



subsection \<open>Teardown and the closed state\<close>

lemma teardown_CLOSED: "CLOSED (teardown s)"
  by (simp add: CLOSED_def teardown_def list_all_iff)

lemma end_all_ended: "list_all ended xs \<Longrightarrow> map (\<lambda>socket. socket\<lparr>ended := True\<rparr>) xs = xs"
  by (induction xs) auto

lemma teardown_idem: "CLOSED s \<Longrightarrow> teardown s = s"
  by (simp add: CLOSED_def teardown_def end_all_ended)

lemma destroy_call_CLOSED: "CLOSED s \<Longrightarrow> CLOSED (destroy_call s)"
  by (simp add: CLOSED_def destroy_call_def split: option.splits)

lemma step_CLOSED:
  "CLOSED s \<Longrightarrow>
   CLOSED (step s ev) \<and> pushed (step s ev) = pushed s \<and> delivered (step s ev) = delivered s
   \<and> tcpSockets (step s ev) = tcpSockets s"
proof (cases ev)
  case (Connection sid)
  assume "CLOSED s"
  then show ?thesis using Connection by (simp add: CLOSED_def onConnection_def)
next
  case (Data sid d)
  assume "CLOSED s"
  then show ?thesis using Data by (simp add: CLOSED_def onData_def push_def)
next
  case DataListener
  assume "CLOSED s"
  then show ?thesis using DataListener by (simp add: CLOSED_def onDataListener_def flow_def)
next
  case DestroyCalled
  assume c: "CLOSED s"
  have "CLOSED (destroy_call s)" using c by (rule destroy_call_CLOSED)
  then have "teardown (destroy_call s) = destroy_call s" by (rule teardown_idem)
  then show ?thesis using DestroyCalled c
    by (auto simp: destroy_def destroy_resume_def destroy_call_def CLOSED_def split: option.splits)
next
  case (StopSettled stopped)
  assume c: "CLOSED s"
  then have "CLOSED (s\<lparr>awaitingStop := awaitingStop s - 1\<rparr>)" by (simp add: CLOSED_def)
  then have "teardown (s\<lparr>awaitingStop := awaitingStop s - 1\<rparr>) = s\<lparr>awaitingStop := awaitingStop s - 1\<rparr>"
    by (rule teardown_idem)
  then show ?thesis using StopSettled c
    by (auto simp: destroy_resume_def CLOSED_def split: outcome.splits)
qed

lemma run_CLOSED:
  "CLOSED s \<Longrightarrow>
   CLOSED (run s evs) \<and> pushed (run s evs) = pushed s \<and> delivered (run s evs) = delivered s
   \<and> tcpSockets (run s evs) = tcpSockets s"
  unfolding run_def
proof (induction evs arbitrary: s)
  case Nil
  then show ?case by simp
next
  case (Cons ev evs)
  from step_CLOSED [OF Cons.prems, of ev] Cons.IH [of "step s ev"] show ?case by simp
qed

subsection \<open>The live state\<close>

lemma step_live:
  "live s \<Longrightarrow> onDestroy (opts s) \<noteq> None \<Longrightarrow> not_resolving ev \<Longrightarrow>
   live (step s ev) \<and> opts (step s ev) = opts s"
proof (cases ev)
  case (StopSettled stopped)
  assume "live s" "not_resolving ev"
  then show ?thesis using StopSettled
    by (cases stopped) (auto simp: live_def destroy_resume_def)
qed (auto simp: live_def onConnection_def onData_def push_def flow_def onDataListener_def
       destroy_call_def split: option.splits)

lemma run_live:
  "live s \<Longrightarrow> onDestroy (opts s) \<noteq> None \<Longrightarrow> list_all not_resolving evs \<Longrightarrow> live (run s evs)"
  unfolding run_def
proof (induction evs arbitrary: s)
  case Nil
  then show ?case by simp
next
  case (Cons ev evs)
  from Cons.prems step_live [of s ev] have "live (step s ev)" "onDestroy (opts (step s ev)) \<noteq> None"
    by simp_all
  with Cons.IH [of "step s ev"] Cons.prems show ?case by simp
qed

subsection \<open>Chunks on their way to the consumer\<close>

lemma onData_heeded:
  "heeded s \<Longrightarrow> sid \<in> set (map sock_id (tcpSockets s)) \<Longrightarrow>
   heeded (onData sid d s)
   \<and> tcpSockets (onData sid d s) = tcpSockets s
   \<and> flowing (onData sid d s) = flowing s
   \<and> delivered (onData sid d s) @ buffer (onData sid d s)
       = delivered s @ buffer s @ (if d = [] then [] else [d])
   \<and> discarded (onData sid d s) = discarded s
   \<and> (flowing s = Some True \<and> buffer s = [] \<longrightarrow> buffer (onData sid d s) = [])"
  by (auto simp: heeded_def onData_def push_def flow_def)

lemma run_Data_heeded:
  "heeded s \<Longrightarrow> \<forall>r \<in> set rcv. fst r \<in> set (map sock_id (tcpSockets s)) \<Longrightarrow>
   heeded (run s (map (\<lambda>r. Data (fst r) (snd r)) rcv))
   \<and> delivered (run s (map (\<lambda>r. Data (fst r) (snd r)) rcv))
         @ buffer (run s (map (\<lambda>r. Data (fst r) (snd r)) rcv))
       = delivered s @ buffer s @ filter (\<lambda>c. c \<noteq> []) (map snd rcv)
   \<and> discarded (run s (map (\<lambda>r. Data (fst r) (snd r)) rcv)) = discarded s
   \<and> (flowing s = Some True \<and> buffer s = [] \<longrightarrow>
        buffer (run s (map (\<lambda>r. Data (fst r) (snd r)) rcv)) = [])"
  unfolding run_def
proof (induction rcv arbitrary: s)
  case Nil
  then show ?case by simp
next
  case (Cons r rcv)
  have reg: "fst r \<in> set (map sock_id (tcpSockets s))" using Cons.prems by simp
  note h = onData_heeded [OF Cons.prems(1) reg, of "snd r"]
  have reg': "\<forall>x \<in> set rcv. fst x \<in> set (map sock_id (tcpSockets (onData (fst r) (snd r) s)))"
    using Cons.prems h by simp
  from Cons.IH [of "onData (fst r) (snd r) s", OF _ reg'] h show ?case
    by (cases "snd r = []") simp_all
qed

lemma concat_nonempty: "concat (filter (\<lambda>c. c \<noteq> []) cs) = concat cs"
  by (induction cs) auto

subsection \<open>What \<^verbatim>\<open>getStream\<close> does to the counter and to the streams\<close>









lemma after_front_world:
  "after_front e options index stream w = (r, w') \<Longrightarrow>
   currentIndex w' = currentIndex w \<and> streams w' = streams w \<and> crashed w' = crashed w"
  by (auto simp: after_front_def split: outcome.splits prod.splits sum.splits)

lemma after_front_failed:
  "after_front e options index stream w = (Inl (Error msg), w') \<Longrightarrow>
   starts (effects w') = starts (effects w)"
  by (auto simp: after_front_def starts_append gate_starts
        split: outcome.splits prod.splits sum.splits)

subsection \<open>A call run stretch by stretch is \<^verbatim>\<open>getStream\<close>\<close>

lemma gate_loop_append:
  "assertExtensionLoaded_loop probe pol k (tr' @ tr)
     = (fst (assertExtensionLoaded_loop probe pol k tr),
        tr' @ snd (assertExtensionLoaded_loop probe pol k tr))"
proof (induction probe pol k tr arbitrary: tr' rule: assertExtensionLoaded_loop.induct)
  case (1 probe opt currentTick tr)
  show ?case
  proof (cases "int currentTick < policy_times opt")
    case False
    then show ?thesis
      by (simp add: assertExtensionLoaded_loop.simps [of probe opt currentTick])
  next
    case True
    show ?thesis
    proof (cases "probe currentTick")
      case (Rejects m)
      with True show ?thesis
        by (simp add: assertExtensionLoaded_loop.simps [of probe opt currentTick])
    next
      case (Resolves b)
      show ?thesis
      proof (cases b)
        case True
        with \<open>int currentTick < policy_times opt\<close> Resolves show ?thesis
          by (simp add: assertExtensionLoaded_loop.simps [of probe opt currentTick])
      next
        case False
        then have bF: "b = False" by simp
        from "1.IH" [OF \<open>int currentTick < policy_times opt\<close> Resolves bF, of tr']
        show ?thesis
          using \<open>int currentTick < policy_times opt\<close> Resolves False
          by (simp add: assertExtensionLoaded_loop.simps [of probe opt currentTick])
      qed
    qed
  qed
qed

lemma complete_Returned: "complete e options (Returned r) w = (r, w)"
  by (simp add: complete.simps)

lemma complete_AwaitStart:
  "complete e options (AwaitStart index stream) w = (start_result e stream, w)"
  by (simp add: complete.simps [of _ _ "AwaitStart index stream"] complete_Returned
        start_result_def split: outcome.splits)

lemma complete_gate:
  "complete e options (fst (gate_head options index stream k w))
      (snd (gate_head options index stream k w))
     = gate_result e options index stream k w"
proof (induction "nat (policy_times (retryPolicy_of options) - int k)" arbitrary: k w)
  case 0
  then have "\<not> int k < policy_times (retryPolicy_of options)" by simp
  then show ?case
    by (simp add: gate_head_def gate_result_def complete_Returned
          assertExtensionLoaded_loop.simps [of _ _ k])
next
  case (Suc n)
  let ?pol = "retryPolicy_of options"
  from Suc.hyps(2) have lt: "int k < policy_times ?pol" by simp
  from Suc.hyps(2) have n: "n = nat (policy_times ?pol - int (Suc k))" by simp
  show ?case
  proof (cases "probeAnswer e k")
    case (Rejects m)
    with lt show ?thesis
      by (simp add: gate_head_def gate_result_def complete_Returned
            complete.simps [of _ _ "AwaitProbe index stream k"]
            assertExtensionLoaded_loop.simps [of _ _ k])
  next
    case (Resolves b)
    show ?thesis
    proof (cases b)
      case True
      with lt Resolves show ?thesis
        by (simp add: gate_head_def gate_result_def complete_AwaitStart
              complete.simps [of _ _ "AwaitProbe index stream k"]
              assertExtensionLoaded_loop.simps [of _ _ k])
    next
      case False
      let ?wt = "wait_pow (policy_each ?pol) k"
      let ?w = "w\<lparr>effects := effects w @ [Probe, ?wt]\<rparr>"
      have loop: "assertExtensionLoaded_loop (probeAnswer e) ?pol k []
          = (fst (assertExtensionLoaded_loop (probeAnswer e) ?pol (Suc k) []),
             [Probe, ?wt] @ snd (assertExtensionLoaded_loop (probeAnswer e) ?pol (Suc k) []))"
        using lt Resolves False
          gate_loop_append [of "probeAnswer e" ?pol "Suc k" "[Probe, ?wt]" "[]"]
        by (simp add: assertExtensionLoaded_loop.simps [of _ _ k "[]"])
      have "complete e options (fst (gate_head options index stream k w))
          (snd (gate_head options index stream k w))
          = complete e options (fst (gate_head options index stream (Suc k) ?w))
              (snd (gate_head options index stream (Suc k) ?w))"
        using lt Resolves False
        by (simp add: gate_head_def [of _ _ _ k]
              complete.simps [of _ _ "AwaitProbe index stream k"]
              complete.simps [of _ _ "AwaitTimer index stream k"]
              split: prod.splits)
      also have "\<dots> = gate_result e options index stream (Suc k) ?w"
        by (rule Suc.hyps(1) [OF n])
      also have "\<dots> = gate_result e options index stream k w"
        by (simp add: gate_result_def loop split: prod.splits sum.splits)
      finally show ?thesis .
    qed
  qed
qed

lemma complete_AwaitFront:
  "complete e options (AwaitFront index stream) w = after_front e options index stream w"
proof (cases "bringToFront e")
  case (Rejects m)
  then show ?thesis
    by (simp add: complete.simps [of _ _ "AwaitFront index stream"] complete_Returned
          after_front_def)
next
  case (Resolves u)
  have "complete e options (AwaitFront index stream) w
      = complete e options (fst (gate_head options index stream 0 w))
          (snd (gate_head options index stream 0 w))"
    using Resolves
    by (simp add: complete.simps [of _ _ "AwaitFront index stream"] split: prod.splits)
  also have "\<dots> = gate_result e options index stream 0 w"
    by (rule complete_gate)
  also have "\<dots> = after_front e options index stream w"
    using Resolves
    by (simp add: gate_result_def after_front_def assertExtensionLoaded_def start_result_def
          split: prod.splits sum.splits)
  finally show ?thesis .
qed

lemma complete_getStream:
  "audio options \<or> video options \<Longrightarrow>
   complete e (fill_defaults options) AwaitPage w
     = (fst (getStream e options w), snd (snd (getStream e options w)))"
  by (auto simp: complete.simps [of _ _ AwaitPage] complete_Returned complete_AwaitFront
        getStream_def Let_def split: prod.splits sum.splits)

lemma getStream_options:
  "audio options \<or> video options \<Longrightarrow> fst (snd (getStream e options w)) = fill_defaults options"
  by (auto simp: getStream_def Let_def split: sum.splits prod.splits)

subsection \<open>Calls in flight together\<close>







section \<open>The readiness gate\<close>

text \<open>
  C6. With \<open>each = 20\<close> and \<open>times = 3\<close> and a probe that answers false, false, true, the
  gate returns normally; its effects are exactly probe, wait \<open>20^0 = 1\<close>, probe, wait
  \<open>20^1 = 20\<close>, probe: three probes and two waits, whatever the probe would answer
  afterwards.
\<close>

theorem gate_succeeds_on_third_probe:
  "probe 0 = Resolves False \<Longrightarrow> probe 1 = Resolves False \<Longrightarrow> probe 2 = Resolves True \<Longrightarrow>
   assertExtensionLoaded probe \<lparr>policy_each = 20, policy_times = 3\<rparr>
     = (Inr (), [Probe, Wait 1, Probe, Wait 20, Probe])
   \<and> probe_count (snd (assertExtensionLoaded probe \<lparr>policy_each = 20, policy_times = 3\<rparr>)) = 3
   \<and> waits (snd (assertExtensionLoaded probe \<lparr>policy_each = 20, policy_times = 3\<rparr>)) = [1, 20]"
proof -
  assume p: "probe 0 = Resolves False" "probe 1 = Resolves False" "probe 2 = Resolves True"
  have run: "assertExtensionLoaded probe \<lparr>policy_each = 20, policy_times = 3\<rparr>
      = (Inr (), [Probe, Wait 1, Probe, Wait 20, Probe])"
    using p by (simp add: assertExtensionLoaded_def gate_unfold wait_pow_def numeral_2_eq_2)
  show ?thesis
    unfolding run by (simp add: probe_count_def waits_def)
qed

theorem gate_succeeds_on_third_probe_witness:
  "assertExtensionLoaded (\<lambda>k. Resolves (2 \<le> k)) \<lparr>policy_each = 20, policy_times = 3\<rparr>
     = (Inr (), [Probe, Wait 1, Probe, Wait 20, Probe])
   \<and> probe_count [Probe, Wait 1, Probe, Wait 20, Probe] = 3
   \<and> waits [Probe, Wait 1, Probe, Wait 20, Probe] = [1, 20]"
  using gate_succeeds_on_third_probe [of "\<lambda>k. Resolves (2 \<le> k)"]
  by (simp add: probe_count_def waits_def)

text \<open>
  C7. With \<open>times = 3\<close>, whatever \<open>each\<close> is, and a probe that answers false at each of the
  three ticks, the gate throws the error whose message names \<^verbatim>\<open>START_RECORDING\<close>, after
  exactly three probes, each followed by a wait, and no \<^verbatim>\<open>START_RECORDING\<close> evaluation is
  among its effects.
\<close>

theorem gate_fails_after_three_probes:
  "probe 0 = Resolves False \<Longrightarrow> probe 1 = Resolves False \<Longrightarrow> probe 2 = Resolves False \<Longrightarrow>
   fst (assertExtensionLoaded probe \<lparr>policy_each = each_ms, policy_times = 3\<rparr>)
     = Inl (Error ''Could not find START_RECORDING function in the browser context'')
   \<and> probe_count (snd (assertExtensionLoaded probe \<lparr>policy_each = each_ms, policy_times = 3\<rparr>)) = 3
   \<and> wait_count (snd (assertExtensionLoaded probe \<lparr>policy_each = each_ms, policy_times = 3\<rparr>)) = 3
   \<and> starts (snd (assertExtensionLoaded probe \<lparr>policy_each = each_ms, policy_times = 3\<rparr>)) = []"
proof -
  assume p: "probe 0 = Resolves False" "probe 1 = Resolves False" "probe 2 = Resolves False"
  have run: "assertExtensionLoaded probe \<lparr>policy_each = each_ms, policy_times = 3\<rparr>
     = (Inl (Error readiness_message),
        [Probe, wait_pow each_ms 0, Probe, wait_pow each_ms 1, Probe, wait_pow each_ms 2])"
    using p by (simp add: assertExtensionLoaded_def gate_unfold numeral_2_eq_2 numeral_3_eq_3)
  show ?thesis
    unfolding run
    by (simp add: probe_count_def wait_count_def wait_pow_def readiness_message_def)
qed

theorem gate_fails_after_three_probes_witness:
  "assertExtensionLoaded (\<lambda>k. Resolves False) \<lparr>policy_each = 20, policy_times = 3\<rparr>
     = (Inl (Error ''Could not find START_RECORDING function in the browser context''),
        [Probe, Wait 1, Probe, Wait 20, Probe, Wait 400])
   \<and> probe_count [Probe, Wait 1, Probe, Wait 20, Probe, Wait 400] = 3
   \<and> wait_count [Probe, Wait 1, Probe, Wait 20, Probe, Wait 400] = 3"
proof -
  have run: "assertExtensionLoaded (\<lambda>k. Resolves False) \<lparr>policy_each = 20, policy_times = 3\<rparr>
     = (Inl (Error ''Could not find START_RECORDING function in the browser context''),
        [Probe, Wait 1, Probe, Wait 20, Probe, Wait 400])"
    by (simp add: assertExtensionLoaded_def gate_unfold wait_pow_def readiness_message_def
          numeral_2_eq_2 numeral_3_eq_3)
  show ?thesis
    using gate_fails_after_three_probes [of "\<lambda>k. Resolves False" 20]
    by (simp add: run probe_count_def wait_count_def)
qed

section \<open>The streaming bridge\<close>

text \<open>
  C1, as stated, fails: on a bridge with one accepted socket whose stop callback rejects,
  \<^verbatim>\<open>destroy\<close> rejects with that error, the server still listens, the socket is not ended and
  the stream is not destroyed.
\<close>

theorem destroy_leaks_when_stop_rejects:
  "fst (destroy (Rejects ''target closed'') connected_bridge) = Inl (Rejection ''target closed'')
   \<and> listening (tcpServer (snd (destroy (Rejects ''target closed'') connected_bridge)))
   \<and> map ended (tcpSockets (snd (destroy (Rejects ''target closed'') connected_bridge))) = [False]
   \<and> \<not> destroyed (snd (destroy (Rejects ''target closed'') connected_bridge))"
  by (simp add: bridge_defs)

text \<open>
  C1, amended. When the bridge has no stop callback, or the callback resolves,
  \<^verbatim>\<open>destroy\<close> returns normally having ended every registered socket, closed the server and
  destroyed the stream. When the callback rejects, \<^verbatim>\<open>destroy\<close> rejects with that error and
  nothing else has changed: the \<^verbatim>\<open>await\<close> leaves the function before the cleanup.
\<close>

theorem destroy_releases_unless_stop_rejects:
  "(onDestroy (opts s) = None \<or> stopped = Resolves () \<longrightarrow>
      destroy stopped s = (Inr (), teardown (destroy_call s))
      \<and> CLOSED (snd (destroy stopped s)))
   \<and> (onDestroy (opts s) \<noteq> None \<and> stopped = Rejects m \<longrightarrow>
      destroy stopped s = (Inl (Rejection m), s\<lparr>stopCalls := Suc (stopCalls s)\<rparr>))"
  by (auto simp: destroy_def destroy_resume_def destroy_call_def teardown_CLOSED
        split: option.splits)

theorem destroy_releases_unless_stop_rejects_witness:
  "destroy (Resolves ()) connected_bridge = (Inr (), teardown (destroy_call connected_bridge))
   \<and> CLOSED (snd (destroy (Resolves ()) connected_bridge))
   \<and> map ended (tcpSockets (snd (destroy (Resolves ()) connected_bridge))) = [True]
   \<and> destroy (Rejects ''target closed'') connected_bridge
      = (Inl (Rejection ''target closed''),
         connected_bridge\<lparr>stopCalls := Suc (stopCalls connected_bridge)\<rparr>)"
  using destroy_releases_unless_stop_rejects [of connected_bridge "Resolves ()" "[]"]
    destroy_releases_unless_stop_rejects
      [of connected_bridge "Rejects ''target closed''" "''target closed''"]
  by (simp add: bridge_defs)

text \<open>
  C3, as stated, fails: after one \<^verbatim>\<open>destroy\<close> the bridge is closed and the stop callback was
  invoked once; a second \<^verbatim>\<open>destroy\<close> invokes it a second time.
\<close>

theorem second_destroy_stops_again:
  "CLOSED (snd (destroy (Resolves ()) connected_bridge))
   \<and> stopCalls (snd (destroy (Resolves ()) connected_bridge)) = 1
   \<and> stopCalls (snd (destroy (Resolves ()) (snd (destroy (Resolves ()) connected_bridge)))) = 2"
  by (simp add: bridge_defs)

text \<open>
  C3, amended. \<^verbatim>\<open>destroy\<close> on a closed bridge invokes the stop callback once more (when there
  is one) and changes nothing else: sockets, server and output are as before and the
  bridge stays closed. It returns normally when the callback resolves or is absent, and
  rejects with the callback's error when the callback rejects.
\<close>

theorem destroy_on_closed:
  "CLOSED s \<Longrightarrow>
   snd (destroy stopped s) = destroy_call s
   \<and> stopCalls (destroy_call s)
       = (if onDestroy (opts s) = None then stopCalls s else Suc (stopCalls s))
   \<and> tcpSockets (destroy_call s) = tcpSockets s
   \<and> tcpServer (destroy_call s) = tcpServer s
   \<and> pushed (destroy_call s) = pushed s
   \<and> CLOSED (destroy_call s)
   \<and> fst (destroy stopped s)
       = (case stopped of
            Resolves u \<Rightarrow> Inr ()
          | Rejects m \<Rightarrow> if onDestroy (opts s) = None then Inr () else Inl (Rejection m))"
proof -
  assume c: "CLOSED s"
  then have c': "CLOSED (destroy_call s)" by (rule destroy_call_CLOSED)
  have 1: "snd (destroy stopped s) = destroy_call s"
    using teardown_idem [OF c'] by (simp add: destroy_def destroy_resume_def split: outcome.splits)
  have 2: "fst (destroy stopped s)
       = (case stopped of
            Resolves u \<Rightarrow> Inr ()
          | Rejects m \<Rightarrow> if onDestroy (opts s) = None then Inr () else Inl (Rejection m))"
    by (simp add: destroy_def destroy_resume_def split: outcome.splits)
  have 3: "stopCalls (destroy_call s)
       = (if onDestroy (opts s) = None then stopCalls s else Suc (stopCalls s))"
    "tcpSockets (destroy_call s) = tcpSockets s" "tcpServer (destroy_call s) = tcpServer s"
    "pushed (destroy_call s) = pushed s"
    by (auto simp: destroy_call_def split: option.splits)
  show ?thesis using 1 2 3 c' by simp
qed

theorem destroy_on_closed_witness:
  "CLOSED (teardown connected_bridge)
   \<and> destroy (Resolves ()) (teardown connected_bridge)
      = (Inr (), (teardown connected_bridge)\<lparr>stopCalls := 1\<rparr>)"
  using destroy_on_closed [of "teardown connected_bridge" "Resolves ()"]
  by (simp add: bridge_defs)

text \<open>
  C4, as stated, fails: \<^verbatim>\<open>destroy\<close> is called on a bridge with socket 1; a chunk that arrives
  while the stop callback is pending is forwarded; the callback then rejects, and a later
  chunk is forwarded too and a second connection is accepted.
\<close>

theorem forwards_after_destroy_invoked:
  "pushed (run connected_bridge
      [DestroyCalled, Data 1 [1, 2], StopSettled (Rejects ''target closed''), Data 1 [3],
       Connection 2])
     = [[1, 2], [3]]
   \<and> map sock_id (tcpSockets (run connected_bridge
      [DestroyCalled, Data 1 [1, 2], StopSettled (Rejects ''target closed''), Data 1 [3],
       Connection 2]))
     = [1, 2]"
  by (simp add: bridge_defs)

text \<open>
  C4, amended. A \<^verbatim>\<open>destroy\<close> that returns normally leaves the bridge closed, and so does the
  stop callback resolving for a suspended \<^verbatim>\<open>destroy\<close>. On a closed bridge no event
  whatever (data on any socket, a connection attempt, a consumer starting to listen,
  further \<^verbatim>\<open>destroy\<close> calls and their callbacks settling) takes a chunk into the output,
  delivers one to the consumer or registers a socket. Until then, that is on a live
  bridge with a stop callback and through any events among which no stop callback
  resolves (so every \<^verbatim>\<open>destroy\<close> called is still suspended or was rejected), the bridge
  stays live; and a live bridge takes every non-empty chunk of a registered socket into
  its output and registers every connection.
\<close>

theorem nothing_forwarded_once_closed:
  "(fst (destroy stopped s0) = Inr () \<longrightarrow> CLOSED (snd (destroy stopped s0)))
   \<and> (0 < awaitingStop s0 \<longrightarrow> CLOSED (step s0 (StopSettled (Resolves ()))))
   \<and> (CLOSED s \<longrightarrow>
        pushed (run s evs) = pushed s
        \<and> delivered (run s evs) = delivered s
        \<and> tcpSockets (run s evs) = tcpSockets s
        \<and> CLOSED (run s evs))
   \<and> (live s1 \<and> onDestroy (opts s1) \<noteq> None \<and> list_all not_resolving evs1 \<longrightarrow>
        live (run s1 evs1))
   \<and> (live s2 \<and> sid \<in> set (map sock_id (tcpSockets s2)) \<and> d \<noteq> [] \<longrightarrow>
        pushed (step s2 (Data sid d)) = pushed s2 @ [d])
   \<and> (live s2 \<longrightarrow>
        tcpSockets (step s2 (Connection k)) = tcpSockets s2 @ [\<lparr>sock_id = k, ended = False\<rparr>])"
proof -
  have 1: "fst (destroy stopped s0) = Inr () \<longrightarrow> CLOSED (snd (destroy stopped s0))"
    by (auto simp: destroy_def destroy_resume_def teardown_CLOSED
          split: outcome.splits if_splits)
  have 2: "0 < awaitingStop s0 \<longrightarrow> CLOSED (step s0 (StopSettled (Resolves ())))"
    by (simp add: destroy_resume_def teardown_CLOSED)
  have 3: "live s2 \<and> sid \<in> set (map sock_id (tcpSockets s2)) \<and> d \<noteq> [] \<longrightarrow>
        pushed (step s2 (Data sid d)) = pushed s2 @ [d]"
    by (auto simp: live_def onData_def push_def flow_def)
  have 4: "live s2 \<longrightarrow>
        tcpSockets (step s2 (Connection k)) = tcpSockets s2 @ [\<lparr>sock_id = k, ended = False\<rparr>]"
    by (simp add: live_def onConnection_def)
  show ?thesis
    using 1 2 3 4 run_CLOSED [of s evs] run_live [of s1 evs1] by blast
qed

theorem nothing_forwarded_once_closed_witness:
  "fst (destroy (Resolves ()) connected_bridge) = Inr ()
   \<and> CLOSED (snd (destroy (Resolves ()) connected_bridge))
   \<and> pushed (run (snd (destroy (Resolves ()) connected_bridge))
        [Data 1 [3], Connection 2, Data 2 [4], DataListener, DestroyCalled,
         StopSettled (Resolves ())]) = []
   \<and> map sock_id (tcpSockets (run (snd (destroy (Resolves ()) connected_bridge))
        [Data 1 [3], Connection 2, Data 2 [4], DataListener, DestroyCalled,
         StopSettled (Resolves ())])) = [1]
   \<and> CLOSED (step (step connected_bridge DestroyCalled) (StopSettled (Resolves ())))
   \<and> live (run connected_bridge
        [DestroyCalled, Data 1 [1, 2], StopSettled (Rejects ''target closed''), DestroyCalled])
   \<and> pushed (step (run connected_bridge
        [DestroyCalled, Data 1 [1, 2], StopSettled (Rejects ''target closed''), DestroyCalled])
        (Data 1 [3])) = [[1, 2], [3]]"
  using nothing_forwarded_once_closed [of "Resolves ()" connected_bridge
      "snd (destroy (Resolves ()) connected_bridge)"
      "[Data 1 [3], Connection 2, Data 2 [4], DataListener, DestroyCalled,
        StopSettled (Resolves ())]"
      connected_bridge
      "[DestroyCalled, Data 1 [1, 2], StopSettled (Rejects ''target closed''), DestroyCalled]"
      "run connected_bridge
        [DestroyCalled, Data 1 [1, 2], StopSettled (Rejects ''target closed''), DestroyCalled]"
      1 "[3]" 2]
    nothing_forwarded_once_closed [of "Resolves ()" "step connected_bridge DestroyCalled"]
  by (simp add: bridge_defs)

text \<open>
  C9, as stated, fails: with the default \<^verbatim>\<open>immediateResume\<close> the stream flows from its
  construction on, and the chunks that arrive on socket 1 before the consumer listens
  are emitted to nobody; the consumer receives none of their bytes.
\<close>

theorem chunks_lost_without_listener:
  "delivered (run connected_bridge [Data 1 [1, 2], Data 1 [3], DataListener]) = []
   \<and> buffer (run connected_bridge [Data 1 [1, 2], Data 1 [3], DataListener]) = []
   \<and> discarded (run connected_bridge [Data 1 [1, 2], Data 1 [3], DataListener]) = [[1, 2], [3]]
   \<and> received_bytes (run connected_bridge [Data 1 [1, 2], Data 1 [3], DataListener]) = []"
  by (simp add: bridge_defs)

text \<open>
  C9, amended. On a bridge that is not destroyed and is not flowing without a listener
  (the consumer listens, or \<^verbatim>\<open>immediateResume\<close> was false and the stream has not started to
  flow), the non-empty chunks arriving on registered sockets are appended, in the order
  of arrival and none dropped, to the chunks delivered to the consumer or held for it;
  the bytes are the earlier bytes followed by the concatenation of the chunks, wherever
  the chunks were cut; a flowing stream holds nothing back; and the held chunks are
  delivered, in order, when the consumer starts to listen. On a bridge that flows
  without a listener an arriving chunk is emitted to nobody.
\<close>

theorem chunks_forwarded_in_order:
  "(heeded s \<and> (\<forall>r \<in> set rcv. fst r \<in> set (map sock_id (tcpSockets s))) \<longrightarrow>
      delivered (run s (map (\<lambda>r. Data (fst r) (snd r)) rcv))
          @ buffer (run s (map (\<lambda>r. Data (fst r) (snd r)) rcv))
        = delivered s @ buffer s @ filter (\<lambda>c. c \<noteq> []) (map snd rcv)
      \<and> output_bytes (run s (map (\<lambda>r. Data (fst r) (snd r)) rcv))
        = output_bytes s @ concat (map snd rcv)
      \<and> discarded (run s (map (\<lambda>r. Data (fst r) (snd r)) rcv)) = discarded s
      \<and> (flowing s = Some True \<and> buffer s = [] \<longrightarrow>
           buffer (run s (map (\<lambda>r. Data (fst r) (snd r)) rcv)) = []
           \<and> received_bytes (run s (map (\<lambda>r. Data (fst r) (snd r)) rcv))
             = received_bytes s @ concat (map snd rcv)))
   \<and> (\<not> destroyed s1 \<and> flowing s1 \<noteq> Some False \<longrightarrow>
        delivered (step s1 DataListener) = delivered s1 @ buffer s1
        \<and> buffer (step s1 DataListener) = [])
   \<and> (\<not> destroyed s2 \<and> flowing s2 = Some True \<and> dataListeners s2 = 0
        \<and> sid \<in> set (map sock_id (tcpSockets s2)) \<and> d \<noteq> [] \<longrightarrow>
        delivered (step s2 (Data sid d)) = delivered s2
        \<and> buffer (step s2 (Data sid d)) = []
        \<and> discarded (step s2 (Data sid d)) = discarded s2 @ buffer s2 @ [d])"
proof -
  have a: "heeded s \<and> (\<forall>r \<in> set rcv. fst r \<in> set (map sock_id (tcpSockets s))) \<longrightarrow>
      delivered (run s (map (\<lambda>r. Data (fst r) (snd r)) rcv))
          @ buffer (run s (map (\<lambda>r. Data (fst r) (snd r)) rcv))
        = delivered s @ buffer s @ filter (\<lambda>c. c \<noteq> []) (map snd rcv)
      \<and> output_bytes (run s (map (\<lambda>r. Data (fst r) (snd r)) rcv))
        = output_bytes s @ concat (map snd rcv)
      \<and> discarded (run s (map (\<lambda>r. Data (fst r) (snd r)) rcv)) = discarded s
      \<and> (flowing s = Some True \<and> buffer s = [] \<longrightarrow>
           buffer (run s (map (\<lambda>r. Data (fst r) (snd r)) rcv)) = []
           \<and> received_bytes (run s (map (\<lambda>r. Data (fst r) (snd r)) rcv))
             = received_bytes s @ concat (map snd rcv))"
  proof (intro impI, elim conjE)
    assume h: "heeded s" and reg: "\<forall>r \<in> set rcv. fst r \<in> set (map sock_id (tcpSockets s))"
    let ?s = "run s (map (\<lambda>r. Data (fst r) (snd r)) rcv)"
    note r = run_Data_heeded [OF h reg]
    from r have eq: "delivered ?s @ buffer ?s
        = delivered s @ buffer s @ filter (\<lambda>c. c \<noteq> []) (map snd rcv)" by simp
    have "concat (delivered ?s @ buffer ?s)
        = concat (delivered s @ buffer s) @ concat (map snd rcv)"
      by (simp only: eq) (simp add: concat_nonempty)
    then have ob: "output_bytes ?s = output_bytes s @ concat (map snd rcv)"
      by (simp add: output_bytes_def)
    have rb: "flowing s = Some True \<and> buffer s = [] \<longrightarrow>
        buffer ?s = [] \<and> received_bytes ?s = received_bytes s @ concat (map snd rcv)"
    proof (intro impI)
      assume f: "flowing s = Some True \<and> buffer s = []"
      with r have b: "buffer ?s = []" by simp
      with ob f show "buffer ?s = [] \<and> received_bytes ?s = received_bytes s @ concat (map snd rcv)"
        by (simp add: output_bytes_def received_bytes_def)
    qed
    from r eq ob rb show "delivered ?s @ buffer ?s
        = delivered s @ buffer s @ filter (\<lambda>c. c \<noteq> []) (map snd rcv)
      \<and> output_bytes ?s = output_bytes s @ concat (map snd rcv)
      \<and> discarded ?s = discarded s
      \<and> (flowing s = Some True \<and> buffer s = [] \<longrightarrow>
           buffer ?s = [] \<and> received_bytes ?s = received_bytes s @ concat (map snd rcv))"
      by simp
  qed
  have b: "\<not> destroyed s1 \<and> flowing s1 \<noteq> Some False \<longrightarrow>
        delivered (step s1 DataListener) = delivered s1 @ buffer s1
        \<and> buffer (step s1 DataListener) = []"
    by (simp add: onDataListener_def flow_def)
  have c: "\<not> destroyed s2 \<and> flowing s2 = Some True \<and> dataListeners s2 = 0
        \<and> sid \<in> set (map sock_id (tcpSockets s2)) \<and> d \<noteq> [] \<longrightarrow>
        delivered (step s2 (Data sid d)) = delivered s2
        \<and> buffer (step s2 (Data sid d)) = []
        \<and> discarded (step s2 (Data sid d)) = discarded s2 @ buffer s2 @ [d]"
    by (auto simp: onData_def push_def flow_def)
  from a b c show ?thesis by blast
qed

theorem chunks_forwarded_in_order_witness:
  "heeded consumed_bridge
   \<and> delivered (run consumed_bridge [Data 1 [1, 2], Data 1 [3], Data 1 [4, 5, 6]])
       = [[1, 2], [3], [4, 5, 6]]
   \<and> received_bytes (run consumed_bridge [Data 1 [1, 2], Data 1 [3], Data 1 [4, 5, 6]])
       = [1, 2, 3, 4, 5, 6]
   \<and> received_bytes (run consumed_bridge [Data 1 [1], Data 1 [2, 3, 4, 5], Data 1 [6]])
       = [1, 2, 3, 4, 5, 6]
   \<and> heeded paused_bridge
   \<and> buffer (run paused_bridge [Data 1 [1, 2], Data 1 [3]]) = [[1, 2], [3]]
   \<and> delivered (step (run paused_bridge [Data 1 [1, 2], Data 1 [3]]) DataListener)
       = [[1, 2], [3]]
   \<and> discarded (step connected_bridge (Data 1 [1, 2])) = [[1, 2]]"
  using chunks_forwarded_in_order
      [of consumed_bridge "[(1, [1, 2]), (1, [3]), (1, [4, 5, 6])]"
        "run paused_bridge [Data 1 [1, 2], Data 1 [3]]" connected_bridge 1 "[1, 2]"]
    chunks_forwarded_in_order [of consumed_bridge "[(1, [1]), (1, [2, 3, 4, 5]), (1, [6])]"]
    chunks_forwarded_in_order [of paused_bridge "[(1, [1, 2]), (1, [3])]"]
  by (simp add: bridge_defs heeded_def)

section \<open>Session creation\<close>

text \<open>
  C8. When \<open>audio\<close> and \<open>video\<close> are both false, \<^verbatim>\<open>getStream\<close> throws the configuration error
  on its first line: the process state (the counter, the streams and their listeners, the
  effects) and the caller's options are exactly as before the call.
\<close>

theorem getStream_rejects_no_media:
  "\<not> audio options \<Longrightarrow> \<not> video options \<Longrightarrow>
   getStream e options w = (Inl (Error ''At least audio or video must be true''), options, w)"
  by (simp add: getStream_def)

theorem getStream_rejects_no_media_witness:
  "getStream ready_env (video_opts\<lparr>video := False\<rparr>) initial_world
     = (Inl (Error ''At least audio or video must be true''), video_opts\<lparr>video := False\<rparr>,
        initial_world)"
  using getStream_rejects_no_media [of "video_opts\<lparr>video := False\<rparr>" ready_env initial_world]
  by (simp add: video_opts_def)

text \<open>
  C10. When \<open>audio\<close> or \<open>video\<close> is true, the caller's options object after \<^verbatim>\<open>getStream\<close>
  (whether the call then succeeds or fails) has an absent \<open>mimeType\<close> set to
  \<^verbatim>\<open>"video/webm"\<close> if \<open>video\<close> is true and to \<^verbatim>\<open>"audio/webm"\<close> otherwise, an absent
  \<open>frameSize\<close> set to 20, a non-empty \<open>mimeType\<close> and a non-zero \<open>frameSize\<close> kept, and every
  other field unchanged.
\<close>

theorem getStream_fills_defaults_in_place:
  "audio options \<or> video options \<Longrightarrow> options' = fst (snd (getStream e options w)) \<Longrightarrow>
   (mimeType options = None \<longrightarrow>
      mimeType options' = Some (if video options then ''video/webm'' else ''audio/webm''))
   \<and> (frameSize options = None \<longrightarrow> frameSize options' = Some 20)
   \<and> (\<forall>m. mimeType options = Some m \<and> m \<noteq> [] \<longrightarrow> mimeType options' = Some m)
   \<and> (\<forall>n. frameSize options = Some n \<and> n \<noteq> 0 \<longrightarrow> frameSize options' = Some n)
   \<and> options' = options\<lparr>mimeType := mimeType options', frameSize := frameSize options'\<rparr>"
proof -
  assume media: "audio options \<or> video options"
    and o': "options' = fst (snd (getStream e options w))"
  have "options' = fill_defaults options"
    using getStream_options [OF media] o' by simp
  then show ?thesis
    using media by (auto simp: fill_defaults_def Let_def)
qed

theorem getStream_fills_defaults_in_place_witness:
  "fst (snd (getStream never_ready_env video_opts initial_world))
     = video_opts\<lparr>mimeType := Some ''video/webm'', frameSize := Some 20\<rparr>
   \<and> fst (snd (getStream ready_env (video_opts\<lparr>video := False, audio := True, delay := Some 5\<rparr>)
        initial_world))
     = video_opts\<lparr>video := False, audio := True, delay := Some 5,
         mimeType := Some ''audio/webm'', frameSize := Some 20\<rparr>"
  using getStream_fills_defaults_in_place [of video_opts _ never_ready_env initial_world, OF _ refl]
    getStream_fills_defaults_in_place
      [of "video_opts\<lparr>video := False, audio := True, delay := Some 5\<rparr>" _ ready_env
        initial_world, OF _ refl]
  by (simp add: session_defs gate_unfold numeral_2_eq_2 numeral_3_eq_3)







end
